theory Spec2Isabelle
  imports Main "HOL-Library.Multiset"
begin

section \<open>Schema\<close>

text \<open>
  The store is the PostgreSQL schema after all migrations have run. A \<open>UUID\<close> is an
  opaque key, a \<open>TIMESTAMP WITH TIME ZONE\<close> a count of microseconds. \<open>TEXT NOT NULL\<close>
  is a string, a nullable column an option. \<open>status\<close> and \<open>role\<close> are \<open>TEXT\<close>
  columns, not enums, so they are strings here as well.
\<close>

type_synonym uuid = nat
type_synonym timestamptz = int

record profile =
  profile_id :: uuid
  name :: string
  profile_department :: string
  role :: string

record approval_request =
  id_col :: uuid
  user_id :: uuid
  title :: string
  content :: "string option"
  department :: string
  status :: string
  queue_position :: "int option"
  created_at :: timestamptz
  updated_at :: timestamptz

text \<open>The generated primary key of an action row is read by nothing and is left out.\<close>

record approval_action =
  request_id :: uuid
  approver_id :: uuid
  action :: string
  comment :: "string option"
  action_created_at :: timestamptz

record database =
  profiles :: "profile list"
  approval_requests :: "approval_request list"
  approval_actions :: "approval_action list"

datatype sql_error =
  insufficient_privilege | not_null_violation | unique_violation | foreign_key_violation

section \<open>Row level security\<close>

text \<open>
  \<open>auth.uid()\<close> is \<open>None\<close> for an anonymous caller; a comparison with \<open>NULL\<close> is not true.
  The policies of one command are permissive, so a row passes when any of them holds.
\<close>

definition users_can_create_their_own_requests :: "uuid option \<Rightarrow> uuid option \<Rightarrow> bool" where
  "users_can_create_their_own_requests uid new_user_id =
     (uid \<noteq> None \<and> uid = new_user_id)"

definition users_can_update_their_own_requests :: "uuid option \<Rightarrow> approval_request \<Rightarrow> bool" where
  "users_can_update_their_own_requests uid r = (uid = Some (user_id r))"

definition approvers_can_update_request_status :: "database \<Rightarrow> uuid option \<Rightarrow> bool" where
  "approvers_can_update_request_status db uid =
     (case uid of
        None \<Rightarrow> False
      | Some u \<Rightarrow> list_ex (\<lambda>p. profile_id p = u \<and> (role p = ''approver'' \<or> role p = ''admin''))
                    (profiles db))"

definition approvers_can_create_approval_actions ::
    "database \<Rightarrow> uuid option \<Rightarrow> approval_action \<Rightarrow> bool" where
  "approvers_can_create_approval_actions db uid a =
     (uid = Some (approver_id a) \<and>
      (case uid of
         None \<Rightarrow> False
       | Some u \<Rightarrow> list_ex (\<lambda>p. profile_id p = u \<and> (role p = ''approver'' \<or> role p = ''admin''))
                     (profiles db)))"

section \<open>Trigger functions\<close>

text \<open>\<open>update_updated_at_column\<close>: \<open>NEW.updated_at = now()\<close>.\<close>

definition update_updated_at_column :: "timestamptz \<Rightarrow> approval_request \<Rightarrow> approval_request" where
  "update_updated_at_column now new = new\<lparr>updated_at := now\<rparr>"

text \<open>\<open>TG_OP\<close>; an update carries \<open>OLD\<close>.\<close>

datatype tg_op = INSERT | UPDATE approval_request

text \<open>The condition of the outer \<open>IF\<close> of \<open>update_queue_positions\<close>.\<close>

definition recompute_guard :: "tg_op \<Rightarrow> approval_request \<Rightarrow> bool" where
  "recompute_guard tg new =
     (case tg of
        UPDATE old \<Rightarrow>
          (status old \<noteq> status new \<or> queue_position old \<noteq> queue_position new) \<and>
          (status old = ''pending'' \<or> status new = ''pending'')
      | INSERT \<Rightarrow> status new = ''pending'')"

text \<open>
  The \<open>WHERE\<close> clause of the common table expression, and the expression itself:
  \<open>ROW_NUMBER() OVER (ORDER BY created_at)\<close> numbers the selected rows from 1 in
  ascending \<open>created_at\<close>. The \<open>ORDER BY\<close> has no second key, so the order of rows
  of equal \<open>created_at\<close> is whatever the executor yields: it follows the physical
  place of the row versions, which every update moves, and may differ from one
  statement to the next. Each statement therefore takes that order as a parameter
  \<open>tie\<close>: among rows of equal \<open>created_at\<close> the row whose key has the smaller
  \<open>tie\<close> comes first (rows that \<open>tie\<close> does not separate either stay in table
  order). Every order PostgreSQL can produce is the order of some \<open>tie\<close>.
\<close>

type_synonym tie_order = "uuid \<Rightarrow> nat"

definition order_by_created_at :: "tie_order \<Rightarrow> approval_request list \<Rightarrow> approval_request list" where
  "order_by_created_at tie rows = sort_key created_at (sort_key (\<lambda>r. tie (id_col r)) rows)"

definition selected :: "tg_op \<Rightarrow> approval_request \<Rightarrow> approval_request \<Rightarrow> bool" where
  "selected tg new r = (status r = ''pending'' \<and> (tg = INSERT \<or> id_col r \<noteq> id_col new))"

definition ranked_requests ::
    "tie_order \<Rightarrow> tg_op \<Rightarrow> approval_request \<Rightarrow> approval_request list \<Rightarrow> (uuid \<times> int) list" where
  "ranked_requests tie tg new tbl =
     (let sel = filter (selected tg new) tbl
      in zip (map id_col (order_by_created_at tie sel)) (map int [1..<Suc (length sel)]))"

text \<open>
  The \<open>UPDATE ... FROM ranked_requests\<close>: a row joins the ranking on its id and is
  written when its position \<open>IS DISTINCT FROM\<close> the new one. The statement names only
  \<open>queue_position\<close>, so of the row triggers only \<open>update_approval_requests_updated_at\<close>
  (\<open>BEFORE UPDATE\<close>) fires for a written row; \<open>update_queue_positions_trigger\<close>
  (\<open>UPDATE OF status\<close>) does not.
\<close>

definition position_is_distinct :: "(uuid \<times> int) list \<Rightarrow> approval_request \<Rightarrow> bool" where
  "position_is_distinct ranked r =
     (case map_of ranked (id_col r) of
        None \<Rightarrow> False
      | Some new_position \<Rightarrow> queue_position r \<noteq> Some new_position)"

definition rewritten :: "(uuid \<times> int) list \<Rightarrow> approval_request list \<Rightarrow> approval_request list" where
  "rewritten ranked tbl = filter (position_is_distinct ranked) tbl"

definition rerank_row ::
    "(uuid \<times> int) list \<Rightarrow> timestamptz \<Rightarrow> approval_request \<Rightarrow> approval_request" where
  "rerank_row ranked now r =
     (if position_is_distinct ranked r
      then update_updated_at_column now (r\<lparr>queue_position := map_of ranked (id_col r)\<rparr>)
      else r)"

definition rerank ::
    "(uuid \<times> int) list \<Rightarrow> timestamptz \<Rightarrow> approval_request list \<Rightarrow> approval_request list" where
  "rerank ranked now tbl = map (rerank_row ranked now) tbl"

text \<open>
  \<open>update_queue_positions\<close> (the last migration), a \<open>BEFORE ... FOR EACH ROW\<close> trigger
  function: it sees the table without the row being written (insert) or with its old
  version (update), and returns \<open>NEW\<close>.
\<close>

definition earlier_pending :: "approval_request \<Rightarrow> approval_request list \<Rightarrow> nat" where
  "earlier_pending new tbl =
     length (filter (\<lambda>r. status r = ''pending'' \<and> created_at r < created_at new) tbl)"

definition update_queue_positions ::
    "tie_order \<Rightarrow> tg_op \<Rightarrow> approval_request \<Rightarrow> timestamptz \<Rightarrow> approval_request list
       \<Rightarrow> approval_request \<times> approval_request list" where
  "update_queue_positions tie tg new now tbl =
     (if recompute_guard tg new then
        let tbl' = rerank (ranked_requests tie tg new tbl) now tbl;
            new' = (if status new = ''pending''
                    then new\<lparr>queue_position := Some (int (earlier_pending new tbl') + 1)\<rparr>
                    else new)
        in (new', tbl')
      else (new, tbl))"

section \<open>Statements\<close>

text \<open>
  A single-row \<open>INSERT INTO approval_requests\<close>. \<open>None\<close> in a value is a column left
  out of the statement: \<open>status\<close>, \<open>created_at\<close> and \<open>updated_at\<close> then take their
  defaults; \<open>user_id\<close>, \<open>title\<close> and \<open>department\<close> have none and are \<open>NULL\<close>. The
  generated key is passed in, and so are the time \<open>now\<close> of the transaction and the
  order \<open>tie\<close> of equal timestamps.
  PostgreSQL runs the row trigger first, then the policy check, then the constraints;
  the trigger neither reads nor writes a checked column and a failed statement leaves
  nothing behind, so the checks are written first, in the order their errors win.
  \<open>new_row\<close> is the row after the defaults; it is built only once the checks have
  found \<open>user_id\<close>, \<open>title\<close> and \<open>department\<close> present.
\<close>

record insert_values =
  v_user_id :: "uuid option"
  v_title :: "string option"
  v_content :: "string option"
  v_department :: "string option"
  v_status :: "string option"
  v_queue_position :: "int option"
  v_created_at :: "timestamptz option"
  v_updated_at :: "timestamptz option"

definition new_row :: "timestamptz \<Rightarrow> uuid \<Rightarrow> insert_values \<Rightarrow> approval_request" where
  "new_row now new_id v =
     \<lparr> id_col = new_id,
       user_id = the (v_user_id v),
       title = the (v_title v),
       content = v_content v,
       department = the (v_department v),
       status = (case v_status v of None \<Rightarrow> ''pending'' | Some s \<Rightarrow> s),
       queue_position = v_queue_position v,
       created_at = (case v_created_at v of None \<Rightarrow> now | Some t \<Rightarrow> t),
       updated_at = (case v_updated_at v of None \<Rightarrow> now | Some t \<Rightarrow> t) \<rparr>"

definition insert_approval_request ::
    "database \<Rightarrow> uuid option \<Rightarrow> timestamptz \<Rightarrow> tie_order \<Rightarrow> uuid \<Rightarrow> insert_values
       \<Rightarrow> sql_error + database" where
  "insert_approval_request db uid now tie new_id v =
     (if \<not> users_can_create_their_own_requests uid (v_user_id v) then Inl insufficient_privilege
      else if v_title v = None \<or> v_department v = None then Inl not_null_violation
      else if new_id \<in> set (map id_col (approval_requests db)) then Inl unique_violation
      else
        let (new, tbl) = update_queue_positions tie INSERT (new_row now new_id v) now
                           (approval_requests db)
        in Inr (db\<lparr>approval_requests := tbl @ [new]\<rparr>))"

text \<open>
  \<open>UPDATE approval_requests SET ... WHERE id = rid\<close>, for the columns a client of
  this repository assigns; \<open>None\<close> is a column absent from the \<open>SET\<close> list. A row the
  policies hide is skipped without an error. \<open>update_approval_requests_updated_at\<close>
  fires before \<open>update_queue_positions_trigger\<close> (name order), the latter only when
  \<open>status\<close> is in the \<open>SET\<close> list. No modelled assignment changes \<open>user_id\<close>, so the
  new row passes the policies whenever the old one did. \<open>id\<close> is the primary key
  (\<open>id_col\<close> here): at most one row has the key \<open>rid\<close>. \<open>tie\<close> is the order of
  equal timestamps that the re-ranking of this statement meets.
\<close>

record update_set =
  set_title :: "string option"
  set_content :: "string option option"
  set_department :: "string option"
  set_status :: "string option"
  set_queue_position :: "int option option"

definition assign :: "update_set \<Rightarrow> approval_request \<Rightarrow> approval_request" where
  "assign u old =
     old\<lparr> title := (case set_title u of None \<Rightarrow> title old | Some x \<Rightarrow> x),
          content := (case set_content u of None \<Rightarrow> content old | Some x \<Rightarrow> x),
          department := (case set_department u of None \<Rightarrow> department old | Some x \<Rightarrow> x),
          status := (case set_status u of None \<Rightarrow> status old | Some x \<Rightarrow> x),
          queue_position :=
            (case set_queue_position u of None \<Rightarrow> queue_position old | Some x \<Rightarrow> x) \<rparr>"

definition update_queue_positions_trigger_fires :: "update_set \<Rightarrow> bool" where
  "update_queue_positions_trigger_fires u = (set_status u \<noteq> None)"

definition update_approval_requests ::
    "database \<Rightarrow> uuid option \<Rightarrow> timestamptz \<Rightarrow> tie_order \<Rightarrow> uuid \<Rightarrow> update_set
       \<Rightarrow> sql_error + database" where
  "update_approval_requests db uid now tie rid u =
     (case find (\<lambda>r. id_col r = rid) (approval_requests db) of
        None \<Rightarrow> Inr db
      | Some old \<Rightarrow>
          if \<not> (users_can_update_their_own_requests uid old \<or>
                 approvers_can_update_request_status db uid)
          then Inr db
          else
            let new = update_updated_at_column now (assign u old);
                (new', tbl) =
                  (if update_queue_positions_trigger_fires u
                   then update_queue_positions tie (UPDATE old) new now (approval_requests db)
                   else (new, approval_requests db))
            in Inr (db\<lparr>approval_requests := map (\<lambda>r. if id_col r = rid then new' else r) tbl\<rparr>))"

text \<open>
  \<open>INSERT INTO approval_actions\<close>: the policy check, then the foreign key to the
  request.
\<close>

definition insert_approval_action ::
    "database \<Rightarrow> uuid option \<Rightarrow> approval_action \<Rightarrow> sql_error + database" where
  "insert_approval_action db uid a =
     (if \<not> approvers_can_create_approval_actions db uid a then Inl insufficient_privilege
      else if request_id a \<notin> set (map id_col (approval_requests db)) then Inl foreign_key_violation
      else Inr (db\<lparr>approval_actions := approval_actions db @ [a]\<rparr>))"

text \<open>
  A delete of a request row (the cascade from \<open>auth.users\<close>; no policy lets a client
  delete). The last migration attaches \<open>update_queue_positions_trigger\<close> to
  \<open>INSERT OR UPDATE OF status\<close> only, so no trigger runs; the actions of the request
  go with it (\<open>ON DELETE CASCADE\<close>).
\<close>

definition delete_approval_request :: "database \<Rightarrow> uuid \<Rightarrow> database" where
  "delete_approval_request db rid =
     db\<lparr> approval_requests := filter (\<lambda>r. id_col r \<noteq> rid) (approval_requests db),
         approval_actions := filter (\<lambda>a. request_id a \<noteq> rid) (approval_actions db) \<rparr>"

section \<open>Client operations\<close>

text \<open>
  The two components that write to the store. \<open>user\<close> and \<open>profile\<close> are what the
  \<open>useAuth\<close> hook hands to the component (\<open>None\<close> for \<open>null\<close>); the requests carry the
  session of \<open>user\<close>, so \<open>auth.uid()\<close> is \<open>user.id\<close>. The result is the toast shown
  (\<open>None\<close> when the handler returns without one) and the store afterwards.
\<close>

datatype decision = approved | rejected

definition decision_text :: "decision \<Rightarrow> string" where
  "decision_text d = (case d of approved \<Rightarrow> ''approved'' | rejected \<Rightarrow> ''rejected'')"

datatype toast =
  no_permission | processing_failed | decision_processed | submit_failed | submit_completed

definition status_assignment :: "string \<Rightarrow> update_set" where
  "status_assignment s =
     \<lparr> set_title = None, set_content = None, set_department = None,
       set_status = Some s, set_queue_position = None \<rparr>"

text \<open>
  \<open>handleApprovalAction\<close>: the role check on the client's profile, then
  \<open>update({ status: action }).eq('id', requestId)\<close>, then the insert of the action
  row, as two separate requests (\<open>now\<close> and \<open>now'\<close> are their transaction times,
  \<open>tie\<close> the order of equal timestamps during the update). \<open>cmt\<close> is the comment
  text the component sends.
\<close>

definition handleApprovalAction ::
    "database \<Rightarrow> timestamptz \<Rightarrow> timestamptz \<Rightarrow> tie_order \<Rightarrow> uuid option \<Rightarrow> profile option
       \<Rightarrow> uuid \<Rightarrow> decision \<Rightarrow> string \<Rightarrow> toast \<times> database" where
  "handleApprovalAction db now now' tie user prof requestId act cmt =
     (case (user, prof) of
        (Some u, Some p) \<Rightarrow>
          if role p \<noteq> ''approver'' \<and> role p \<noteq> ''admin'' then (no_permission, db)
          else
            (case update_approval_requests db (Some u) now tie requestId
                    (status_assignment (decision_text act)) of
               Inl updateError \<Rightarrow> (processing_failed, db)
             | Inr db1 \<Rightarrow>
                 (case insert_approval_action db1 (Some u)
                         \<lparr> request_id = requestId, approver_id = u,
                           action = decision_text act, comment = Some cmt,
                           action_created_at = now' \<rparr> of
                    Inl actionError \<Rightarrow> (processing_failed, db1)
                  | Inr db2 \<Rightarrow> (decision_processed, db2)))
      | _ \<Rightarrow> (no_permission, db))"

text \<open>
  \<open>handleSubmit\<close>: \<open>if (!user || !profile) return;\<close>, then the insert of
  \<open>{ user_id, title, content, department: profile.department, status: 'pending' }\<close>.
  The handler does not look at \<open>title\<close>.
\<close>

definition handleSubmit ::
    "database \<Rightarrow> timestamptz \<Rightarrow> tie_order \<Rightarrow> uuid \<Rightarrow> uuid option \<Rightarrow> profile option
       \<Rightarrow> string \<Rightarrow> string \<Rightarrow> toast option \<times> database" where
  "handleSubmit db now tie new_id user prof ttl cnt =
     (case (user, prof) of
        (Some u, Some p) \<Rightarrow>
          (case insert_approval_request db (Some u) now tie new_id
                  \<lparr> v_user_id = Some u, v_title = Some ttl, v_content = Some cnt,
                    v_department = Some (profile_department p), v_status = Some ''pending'',
                    v_queue_position = None, v_created_at = None, v_updated_at = None \<rparr> of
             Inl insertError \<Rightarrow> (Some submit_failed, db)
           | Inr db' \<Rightarrow> (Some submit_completed, db'))
      | _ \<Rightarrow> (None, db))"

text \<open>
  The form around it, \<open><form onSubmit={handleSubmit}>\<close>: the title input is
  \<open>required\<close>, so the browser does not raise the submit event while it is empty, and
  shows its own hint instead; the handler then does not run.
\<close>

definition form_onSubmit ::
    "database \<Rightarrow> timestamptz \<Rightarrow> tie_order \<Rightarrow> uuid \<Rightarrow> uuid option \<Rightarrow> profile option
       \<Rightarrow> string \<Rightarrow> string \<Rightarrow> toast option \<times> database" where
  "form_onSubmit db now tie new_id user prof ttl cnt =
     (if ttl = [] then (None, db) else handleSubmit db now tie new_id user prof ttl cnt)"

section \<open>The queue invariants, as the specification words them\<close>

definition pending :: "approval_request list \<Rightarrow> approval_request list" where
  "pending tbl = filter (\<lambda>r. status r = ''pending'') tbl"

text \<open>Density: the positions of the pending rows are \<open>1..n\<close>, each once.\<close>

definition dense :: "approval_request list \<Rightarrow> bool" where
  "dense tbl =
     (distinct (map queue_position (pending tbl)) \<and>
      set (map queue_position (pending tbl)) =
        set (map (\<lambda>i. Some (int i)) [1..<Suc (length (pending tbl))]))"

text \<open>Ordering: an earlier pending row has the smaller position.\<close>

definition position_less :: "approval_request \<Rightarrow> approval_request \<Rightarrow> bool" where
  "position_less a b =
     (case (queue_position a, queue_position b) of
        (Some x, Some y) \<Rightarrow> x < y
      | _ \<Rightarrow> False)"

definition ordered :: "approval_request list \<Rightarrow> bool" where
  "ordered tbl =
     (\<forall>a \<in> set (pending tbl). \<forall>b \<in> set (pending tbl).
        created_at a < created_at b \<longrightarrow> position_less a b)"

text \<open>Position absence: a position is defined exactly on the pending rows.\<close>

definition position_iff_pending :: "approval_request list \<Rightarrow> bool" where
  "position_iff_pending tbl =
     (\<forall>r \<in> set tbl. (queue_position r \<noteq> None) = (status r = ''pending''))"

text \<open>
  What a statement leaves of a row \<open>r\<close> in the row \<open>r'\<close> that takes its place: the
  same key, and a changed position only together with \<open>updated_at = now()\<close>.
\<close>

definition rewrite_stamps :: "timestamptz \<Rightarrow> approval_request \<Rightarrow> approval_request \<Rightarrow> bool" where
  "rewrite_stamps now r r' =
     (id_col r' = id_col r \<and> (queue_position r' \<noteq> queue_position r \<longrightarrow> updated_at r' = now))"

section \<open>Example data\<close>

text \<open>
  An employee (7) and an approver (8), and the store of Scenario A: the requests R1,
  R2, R3 submitted at times 0, 1, 2 and waiting at positions 1, 2, 3.
\<close>

definition employee_7 :: profile where
  "employee_7 = \<lparr> profile_id = 7, name = ''Kim'', profile_department = ''Sales'',
                   role = ''employee'' \<rparr>"

definition approver_8 :: profile where
  "approver_8 = \<lparr> profile_id = 8, name = ''Lee'', profile_department = ''Sales'',
                   role = ''approver'' \<rparr>"

definition request :: "uuid \<Rightarrow> string \<Rightarrow> string \<Rightarrow> int option \<Rightarrow> timestamptz \<Rightarrow> approval_request" where
  "request i ttl s p t =
     \<lparr> id_col = i, user_id = 7, title = ttl, content = None, department = ''Sales'',
       status = s, queue_position = p, created_at = t, updated_at = t \<rparr>"

definition scenario_A :: database where
  "scenario_A =
     \<lparr> profiles = [employee_7, approver_8],
       approval_requests =
         [request 1 ''R1'' ''pending'' (Some 1) 0,
          request 2 ''R2'' ''pending'' (Some 2) 1,
          request 3 ''R3'' ''pending'' (Some 3) 2],
       approval_actions = [] \<rparr>"

text \<open>
  Scenario B: the store after the approver has approved R2 at time 10 (the action
  row written at time 11).
\<close>

definition scenario_B :: database where
  "scenario_B =
     \<lparr> profiles = [employee_7, approver_8],
       approval_requests =
         [request 1 ''R1'' ''pending'' (Some 1) 0,
          (request 2 ''R2'' ''approved'' (Some 2) 1)\<lparr>updated_at := 10\<rparr>,
          (request 3 ''R3'' ''pending'' (Some 2) 2)\<lparr>updated_at := 10\<rparr>],
       approval_actions =
         [\<lparr> request_id = 2, approver_id = 8, action = ''approved'', comment = Some ''ok'',
            action_created_at = 11 \<rparr>] \<rparr>"

text \<open>
  Two orders of equal timestamps: by key, and the reverse (as after updates have moved
  the older rows behind the newer ones). No two pending requests of Scenario A or B
  have the same timestamp, so what is evaluated on them is the same under every
  order. And a queue of two requests created at the same time, ranked 1 and 2.
\<close>

definition by_key :: tie_order where
  "by_key k = k"

definition by_key_reversed :: tie_order where
  "by_key_reversed k = 100 - k"

definition same_time_queue :: "approval_request list" where
  "same_time_queue =
     [request 1 ''R1'' ''pending'' (Some 1) 0,
      request 2 ''R2'' ''pending'' (Some 2) 0]"

section \<open>Basic facts\<close>

lemmas store_defs =
  handleApprovalAction_def handleSubmit_def form_onSubmit_def update_approval_requests_def
  insert_approval_request_def insert_approval_action_def delete_approval_request_def
  users_can_create_their_own_requests_def users_can_update_their_own_requests_def
  approvers_can_update_request_status_def approvers_can_create_approval_actions_def
  update_queue_positions_trigger_fires_def update_queue_positions_def recompute_guard_def
  ranked_requests_def selected_def rerank_def rerank_row_def rewritten_def
  position_is_distinct_def earlier_pending_def update_updated_at_column_def
  assign_def status_assignment_def decision_text_def new_row_def order_by_created_at_def

lemmas example_defs =
  scenario_A_def scenario_B_def request_def employee_7_def approver_8_def
  by_key_def by_key_reversed_def same_time_queue_def

lemma set_order [simp]: "set (order_by_created_at tie xs) = set xs"
  by (simp add: order_by_created_at_def)

lemma length_order [simp]: "length (order_by_created_at tie xs) = length xs"
  by (simp add: order_by_created_at_def)

lemma mset_order [simp]: "mset (order_by_created_at tie xs) = mset xs"
  by (simp add: order_by_created_at_def)

lemma sorted_order: "sorted (map created_at (order_by_created_at tie xs))"
  by (simp add: order_by_created_at_def)


lemma rerank_row_status [simp]: "status (rerank_row rk now r) = status r"
  by (simp add: rerank_row_def update_updated_at_column_def)

lemma rerank_row_created_at [simp]: "created_at (rerank_row rk now r) = created_at r"
  by (simp add: rerank_row_def update_updated_at_column_def)

lemma rerank_row_id [simp]: "id_col (rerank_row rk now r) = id_col r"
  by (simp add: rerank_row_def update_updated_at_column_def)

lemma earlier_pending_rerank [simp]:
  "earlier_pending new (rerank rk now tbl) = earlier_pending new tbl"
  by (simp add: earlier_pending_def rerank_def filter_map o_def)

lemma map_id_rerank [simp]: "map id_col (rerank rk now tbl) = map id_col tbl"
  by (simp add: rerank_def)

lemma find_mem: "find P xs = Some x \<Longrightarrow> x \<in> set xs"
  by (auto simp: find_Some_iff)

section \<open>The position of an inserted request\<close>

text \<open>
  C5. An insert of a request whose status is \<open>pending\<close> (given, or left to the
  default) that the store accepts appends the new row with position 1 + the number of
  pending rows of the table before the insert whose \<open>created_at\<close> is strictly earlier
  than the new row's, whatever position the statement supplied. The count is taken in
  the trigger's one run over a table that does not hold the new row: its key is not in
  the table before, and the rows before it are the old rows.
\<close>

theorem insert_position:
  assumes "insert_approval_request db uid now tie new_id v = Inr db'"
      and "v_status v = None \<or> v_status v = Some ''pending''"
  shows "\<exists>tbl. approval_requests db' =
           tbl @ [(new_row now new_id v)\<lparr>queue_position :=
                    Some (1 + int (length (filter
                      (\<lambda>r. status r = ''pending'' \<and>
                           created_at r < created_at (new_row now new_id v))
                      (approval_requests db))))\<rparr>] \<and>
           map id_col tbl = map id_col (approval_requests db) \<and>
           new_id \<notin> set (map id_col (approval_requests db))"
proof -
  from assms(2) have "status (new_row now new_id v) = ''pending''"
    by (auto simp: new_row_def)
  with assms(1) show ?thesis
    by (auto simp: insert_approval_request_def update_queue_positions_def recompute_guard_def
          Let_def earlier_pending_def[symmetric] split: if_splits)
qed

theorem insert_position_witness:
  "\<exists>tbl. approval_requests
     (projr (insert_approval_request scenario_A (Some 7) 5 by_key 4
        \<lparr> v_user_id = Some 7, v_title = Some ''R4'', v_content = None,
          v_department = Some ''Sales'', v_status = Some ''pending'',
          v_queue_position = Some 9, v_created_at = Some 1, v_updated_at = None \<rparr>)) =
     tbl @ [\<lparr> id_col = 4, user_id = 7, title = ''R4'', content = None,
              department = ''Sales'', status = ''pending'', queue_position = Some 2,
              created_at = 1, updated_at = 5 \<rparr>]"
proof -
  let ?v = "\<lparr> v_user_id = Some 7, v_title = Some ''R4'', v_content = None,
          v_department = Some ''Sales'', v_status = Some ''pending'',
          v_queue_position = Some 9, v_created_at = Some 1, v_updated_at = None \<rparr>"
  have ok: "insert_approval_request scenario_A (Some 7) 5 by_key 4 ?v =
            Inr (projr (insert_approval_request scenario_A (Some 7) 5 by_key 4 ?v))"
    by (simp add: insert_approval_request_def users_can_create_their_own_requests_def
          scenario_A_def request_def split_beta)
  have st: "v_status ?v = None \<or> v_status ?v = Some ''pending''"
    by simp
  show ?thesis
    using insert_position [OF ok st]
    by (auto simp: new_row_def scenario_A_def request_def)
qed

section \<open>Re-ranked rows and their modification time\<close>

lemma rewrite_stamps_rerank_row: "rewrite_stamps now r (rerank_row rk now r)"
  by (simp add: rewrite_stamps_def rerank_row_def update_updated_at_column_def)

lemma rewrite_stamps_refl: "rewrite_stamps now r r"
  by (simp add: rewrite_stamps_def)

lemma update_queue_positions_table:
  "snd (update_queue_positions tie tg new now tbl) =
     (if recompute_guard tg new then rerank (ranked_requests tie tg new tbl) now tbl else tbl)"
  by (simp add: update_queue_positions_def Let_def)

lemma update_queue_positions_new:
  "fst (update_queue_positions tie tg new now tbl) =
     (if recompute_guard tg new \<and> status new = ''pending''
      then new\<lparr>queue_position := Some (int (earlier_pending new tbl) + 1)\<rparr> else new)"
  by (simp add: update_queue_positions_def Let_def)

lemma stamps_trigger:
  "list_all2 (rewrite_stamps now) tbl (snd (update_queue_positions tie tg new now tbl))"
  by (simp add: update_queue_positions_table rerank_def list_all2_map2
        rewrite_stamps_rerank_row rewrite_stamps_refl list.rel_refl)

lemma find_id: "find (\<lambda>r. id_col r = rid) tbl = Some old \<Longrightarrow> id_col old = rid"
  by (auto simp: find_Some_iff)

lemma stamps_update:
  assumes "update_approval_requests db uid now tie rid u = Inr db'"
  shows "list_all2 (rewrite_stamps now) (approval_requests db) (approval_requests db')"
proof (cases "find (\<lambda>r. id_col r = rid) (approval_requests db)")
  case None
  with assms show ?thesis
    by (simp add: update_approval_requests_def list.rel_refl rewrite_stamps_refl)
next
  case (Some old)
  note idold = find_id [OF Some]
  show ?thesis
  proof (cases "users_can_update_their_own_requests uid old \<or>
                 approvers_can_update_request_status db uid")
    case False
    with assms Some show ?thesis
      by (simp add: update_approval_requests_def list.rel_refl rewrite_stamps_refl)
  next
    case True
    define new where "new = update_updated_at_column now (assign u old)"
    define res where "res = (if update_queue_positions_trigger_fires u
                   then update_queue_positions tie (UPDATE old) new now (approval_requests db)
                   else (new, approval_requests db))"
    have db': "approval_requests db' = map (\<lambda>r. if id_col r = rid then fst res else r) (snd res)"
      using assms Some True
      by (auto simp: update_approval_requests_def Let_def new_def res_def split_beta)
    have newid: "id_col new = rid" and newup: "updated_at new = now"
      by (simp_all add: new_def update_updated_at_column_def assign_def idold)
    have fst_res: "id_col (fst res) = rid \<and> updated_at (fst res) = now"
      by (simp add: res_def update_queue_positions_new newid newup)
    have snd_res: "list_all2 (rewrite_stamps now) (approval_requests db) (snd res)"
      by (simp add: res_def stamps_trigger list.rel_refl rewrite_stamps_refl)
    have "list_all2 (\<lambda>r r'. rewrite_stamps now r (if id_col r' = rid then fst res else r'))
            (approval_requests db) (snd res)"
    proof (rule list_all2_mono [OF snd_res])
      fix r r' assume "rewrite_stamps now r r'"
      with fst_res show "rewrite_stamps now r (if id_col r' = rid then fst res else r')"
        by (simp add: rewrite_stamps_def)
    qed
    then show ?thesis
      by (simp add: db' list_all2_map2)
  qed
qed

text \<open>
  C10. Whenever \<open>update_queue_positions tie\<close> runs, every row of the table whose position
  it changes has \<open>updated_at\<close> set to the time of the statement, by the \<open>BEFORE UPDATE\<close>
  row trigger that fires for the re-ranking \<open>UPDATE\<close>. So after \<open>handleApprovalAction\<close>
  every request whose position differs from before, the other pending requests that
  moved up included, carries the time of the deciding statement in \<open>updated_at\<close>.
\<close>

theorem reranked_rows_get_updated_at:
  "list_all2 (rewrite_stamps now) tbl (snd (update_queue_positions tie tg new now tbl)) \<and>
   list_all2 (rewrite_stamps now) (approval_requests db)
     (approval_requests (snd (handleApprovalAction db now now' tie user prof requestId act cmt)))"
proof
  show "list_all2 (rewrite_stamps now) tbl (snd (update_queue_positions tie tg new now tbl))"
    by (rule stamps_trigger)
next
  have refl: "list_all2 (rewrite_stamps now) (approval_requests db) (approval_requests db)"
    by (simp add: list.rel_refl rewrite_stamps_refl)
  show "list_all2 (rewrite_stamps now) (approval_requests db)
     (approval_requests (snd (handleApprovalAction db now now' tie user prof requestId act cmt)))"
    using refl
    by (auto simp: handleApprovalAction_def insert_approval_action_def
          split: option.splits sum.splits if_splits dest: stamps_update)
qed

theorem reranked_rows_get_updated_at_witness:
  "approval_requests
     (snd (handleApprovalAction scenario_A 10 11 by_key (Some 8) (Some approver_8) 2 approved ''ok'')) =
   [request 1 ''R1'' ''pending'' (Some 1) 0,
    (request 2 ''R2'' ''approved'' (Some 2) 1)\<lparr>updated_at := 10\<rparr>,
    (request 3 ''R3'' ''pending'' (Some 2) 2)\<lparr>updated_at := 10\<rparr>] \<and>
   rewrite_stamps 10 (request 3 ''R3'' ''pending'' (Some 3) 2)
     ((request 3 ''R3'' ''pending'' (Some 2) 2)\<lparr>updated_at := 10\<rparr>)"
  using reranked_rows_get_updated_at
          [of 10 "approval_requests scenario_A" by_key INSERT
              "request 4 ''R4'' ''pending'' None 3"
              scenario_A 11 "Some 8" "Some approver_8" 2 approved "''ok''"]
  by (simp add: store_defs example_defs rewrite_stamps_def split_beta)

section \<open>Idempotence of the re-ranking\<close>





lemma selected_all_pending:
  assumes "tg = INSERT \<or> id_col new \<notin> id_col ` set (pending tbl)"
  shows "filter (selected tg new) tbl = pending tbl"
  unfolding pending_def
proof (rule filter_cong [OF refl])
  fix r assume r: "r \<in> set tbl"
  show "selected tg new r = (status r = ''pending'')"
  proof (cases "status r = ''pending''")
    case True
    with r have "id_col r \<in> id_col ` set (pending tbl)"
      by (simp add: pending_def)
    with assms have "tg = INSERT \<or> id_col r \<noteq> id_col new"
      by metis
    with True show ?thesis
      by (simp add: selected_def)
  next
    case False
    then show ?thesis
      by (simp add: selected_def)
  qed
qed





text \<open>
  With pairwise different timestamps the order of equal timestamps plays no part.
\<close>

lemma order_unique:
  assumes "distinct (map created_at xs)"
  shows "order_by_created_at tie xs = sort_key created_at xs"
proof -
  let ?a = "order_by_created_at tie xs" and ?b = "sort_key created_at xs"
  have "mset (map created_at ?a) = mset (map created_at xs)"
       "mset (map created_at ?b) = mset (map created_at xs)"
    by simp_all
  with assms have da: "distinct (map created_at ?a)" and db: "distinct (map created_at ?b)"
    using mset_eq_imp_distinct_iff by blast+
  have "set (map created_at ?a) = set (map created_at ?b)"
    by simp
  with da db have keys: "map created_at ?a = map created_at ?b"
    by (intro sorted_distinct_set_unique) (simp_all add: sorted_order)
  have "inj_on created_at (set xs)"
    using assms by (simp add: distinct_map)
  then have "inj_on created_at (set ?a \<union> set ?b)"
    by simp
  with keys show ?thesis
    by (simp only: inj_on_map_eq_map)
qed

lemma insort_key_map_same:
  assumes "\<And>x. f (g x) = f x"
  shows "insort_key f (g x) (map g xs) = map g (insort_key f x xs)"
  by (induction xs) (simp_all add: assms)

lemma sort_key_map_same:
  assumes "\<And>x. f (g x) = f x"
  shows "sort_key f (map g xs) = map g (sort_key f xs)"
  by (induction xs) (simp_all add: insort_key_map_same [of f g, OF assms])

lemma ranked_requests_rerank:
  assumes "distinct (map created_at (filter (selected tg new) tbl))"
  shows "ranked_requests tie' tg new (rerank rk now tbl) = ranked_requests tie tg new tbl"
proof -
  let ?sel = "filter (selected tg new) tbl"
  have sel: "filter (selected tg new) (map (rerank_row rk now) tbl) =
             map (rerank_row rk now) ?sel"
  proof -
    have "selected tg new (rerank_row rk now r) = selected tg new r" for r
      by (simp add: selected_def)
    then show ?thesis
      by (simp add: filter_map o_def)
  qed
  have d: "distinct (map created_at (map (rerank_row rk now) ?sel))"
    using assms by (simp add: o_def)
  have "order_by_created_at tie' (map (rerank_row rk now) ?sel) =
        sort_key created_at (map (rerank_row rk now) ?sel)"
    using d by (rule order_unique)
  also have "\<dots> = map (rerank_row rk now) (sort_key created_at ?sel)"
    by (rule sort_key_map_same) simp
  also have "\<dots> = map (rerank_row rk now) (order_by_created_at tie ?sel)"
    by (simp only: order_unique [OF assms])
  finally show ?thesis
    by (simp add: ranked_requests_def Let_def rerank_def sel o_def del: upt_Suc)
qed

text \<open>
  Two runs in a row over rows of pairwise different timestamps: the second run of the
  same re-ranking finds every row at its rank and writes none.
\<close>

lemma second_run_writes_nothing:
  assumes "distinct (map created_at (filter (selected tg new) tbl))"
  shows "rewritten (ranked_requests tie' tg new (rerank (ranked_requests tie tg new tbl) now tbl))
           (rerank (ranked_requests tie tg new tbl) now tbl) = []"
proof -
  have "\<not> position_is_distinct rk (rerank_row rk now r)" for rk r
    by (simp add: position_is_distinct_def rerank_row_def update_updated_at_column_def
          split: option.splits)
  then show ?thesis
    unfolding ranked_requests_rerank [OF assms, where tie = tie]
    by (simp add: rewritten_def rerank_def filter_empty_conv)
qed

section \<open>Updates that leave the status alone\<close>

lemma unique_row:
  assumes "distinct (map id_col tbl)" "a \<in> set tbl" "b \<in> set tbl" "id_col a = id_col b"
  shows "a = b"
  using assms by (auto simp: distinct_map dest: inj_onD)

text \<open>
  C7. An update of a request that assigns no position and either does not name
  \<open>status\<close> in its \<open>SET\<close> list (title, content, department only) or assigns the
  status the row already has is accepted and runs no recompute: either
  \<open>update_queue_positions_trigger\<close> does not fire, or the guard of its function is
  false for the row. The position and the status of every request are as before.
\<close>

theorem unrelated_update_keeps_positions:
  assumes pk: "distinct (map id_col (approval_requests db))"
      and qp: "set_queue_position u = None"
      and st: "set_status u = None \<or>
               (\<forall>r \<in> set (approval_requests db). id_col r = rid \<longrightarrow> set_status u = Some (status r))"
  shows "\<exists>db'. update_approval_requests db uid now tie rid u = Inr db' \<and>
           map queue_position (approval_requests db') = map queue_position (approval_requests db) \<and>
           map status (approval_requests db') = map status (approval_requests db) \<and>
           (\<forall>old. find (\<lambda>r. id_col r = rid) (approval_requests db) = Some old \<longrightarrow>
              \<not> (update_queue_positions_trigger_fires u \<and>
                 recompute_guard (UPDATE old) (update_updated_at_column now (assign u old))))"
proof (cases "find (\<lambda>r. id_col r = rid) (approval_requests db)")
  case None
  then show ?thesis
    by (simp add: update_approval_requests_def)
next
  case (Some old)
  let ?tbl = "approval_requests db"
  let ?new = "update_updated_at_column now (assign u old)"
  have old: "old \<in> set ?tbl" "id_col old = rid"
    using Some by (auto simp: find_Some_iff)
  have same_status: "status ?new = status old"
    using st old by (auto simp: update_updated_at_column_def assign_def)
  have same_pos: "queue_position ?new = queue_position old"
    using qp by (simp add: update_updated_at_column_def assign_def)
  have noguard: "\<not> recompute_guard (UPDATE old) ?new"
    by (simp add: recompute_guard_def same_status same_pos)
  have trig: "(if update_queue_positions_trigger_fires u
               then update_queue_positions tie (UPDATE old) ?new now ?tbl
               else (?new, ?tbl)) = (?new, ?tbl)"
    using noguard by (simp add: update_queue_positions_def)
  have row: "queue_position (if id_col r = rid then ?new else r) = queue_position r \<and>
             status (if id_col r = rid then ?new else r) = status r" if "r \<in> set ?tbl" for r
  proof (cases "id_col r = rid")
    case True
    with pk that old have "r = old"
      by (auto intro: unique_row)
    with same_status same_pos show ?thesis by simp
  next
    case False
    then show ?thesis by simp
  qed
  show ?thesis
  proof (cases "users_can_update_their_own_requests uid old \<or>
                 approvers_can_update_request_status db uid")
    case False
    with Some noguard show ?thesis
      by (simp add: update_approval_requests_def)
  next
    case True
    with Some noguard trig row show ?thesis
      by (simp add: update_approval_requests_def Let_def o_def cong: map_cong)
  qed
qed

theorem unrelated_update_keeps_positions_witness:
  "\<exists>db'. update_approval_requests scenario_A (Some 7) 9 by_key 2
            \<lparr> set_title = Some ''Edited'', set_content = Some (Some ''text''),
              set_department = None, set_status = None, set_queue_position = None \<rparr> = Inr db' \<and>
          map queue_position (approval_requests db') = [Some 1, Some 2, Some 3] \<and>
          map title (approval_requests db') = [''R1'', ''Edited'', ''R3'']"
proof -
  let ?u = "\<lparr> set_title = Some ''Edited'', set_content = Some (Some ''text''),
              set_department = None, set_status = None, set_queue_position = None \<rparr>"
  have pk: "distinct (map id_col (approval_requests scenario_A))"
    by (simp add: example_defs)
  have qp: "set_queue_position ?u = None"
    by simp
  have st: "set_status ?u = None \<or>
            (\<forall>r \<in> set (approval_requests scenario_A).
               id_col r = 2 \<longrightarrow> set_status ?u = Some (status r))"
    by simp
  show ?thesis
    using unrelated_update_keeps_positions [OF pk qp st, of "Some 7" 9 by_key]
    by (auto simp: store_defs example_defs)
qed

section \<open>Decisions\<close>

lemma decision_text_not_pending [simp]: "decision_text act \<noteq> ''pending''"
  by (cases act) (simp_all add: decision_text_def)

lemma ranked_requests_cong:
  "id_col new = id_col new' \<Longrightarrow> ranked_requests tie tg new tbl = ranked_requests tie tg new' tbl"
proof -
  assume "id_col new = id_col new'"
  then have "selected tg new = selected tg new'"
    by (simp add: selected_def fun_eq_iff)
  then show ?thesis
    by (simp add: ranked_requests_def)
qed

lemma approver_policy:
  assumes "p \<in> set (profiles db)" "profile_id p = u" "role p = ''approver'' \<or> role p = ''admin''"
  shows "approvers_can_update_request_status db (Some u)"
  using assms by (auto simp: approvers_can_update_request_status_def list_ex_iff)

lemma decided_row:
  "update_updated_at_column now (assign (status_assignment s) old) = old\<lparr>status := s, updated_at := now\<rparr>"
  by (simp add: update_updated_at_column_def assign_def status_assignment_def)

lemma decide_update:
  assumes f: "find (\<lambda>r. id_col r = rid) (approval_requests db) = Some old"
      and p: "p \<in> set (profiles db)" "profile_id p = u" "role p = ''approver'' \<or> role p = ''admin''"
  shows "update_approval_requests db (Some u) now tie rid (status_assignment (decision_text act)) =
           Inr (db\<lparr>approval_requests :=
                  map (\<lambda>r. if id_col r = rid
                           then old\<lparr>status := decision_text act, updated_at := now\<rparr> else r)
                    (if status old = ''pending''
                     then rerank (ranked_requests tie (UPDATE old) old (approval_requests db)) now
                            (approval_requests db)
                     else approval_requests db)\<rparr>)"
proof -
  let ?new = "old\<lparr>status := decision_text act, updated_at := now\<rparr>"
  have rk: "ranked_requests tie (UPDATE old) ?new (approval_requests db) =
            ranked_requests tie (UPDATE old) old (approval_requests db)"
    by (rule ranked_requests_cong) simp
  have g: "recompute_guard (UPDATE old) ?new = (status old = ''pending'')"
    by (auto simp: recompute_guard_def)
  have fires: "update_queue_positions_trigger_fires (status_assignment (decision_text act))"
    by (simp add: update_queue_positions_trigger_fires_def status_assignment_def)
  show ?thesis
    using f approver_policy [OF p]
    by (simp add: update_approval_requests_def decided_row update_queue_positions_def g rk
          fires Let_def)
qed

lemma decide_result:
  assumes f: "find (\<lambda>r. id_col r = rid) (approval_requests db) = Some old"
      and p: "p \<in> set (profiles db)" "profile_id p = u" "role p = ''approver'' \<or> role p = ''admin''"
  shows "handleApprovalAction db now now' tie (Some u) (Some p) rid act cmt =
           (decision_processed,
            db\<lparr>approval_requests :=
                  map (\<lambda>r. if id_col r = rid
                           then old\<lparr>status := decision_text act, updated_at := now\<rparr> else r)
                    (if status old = ''pending''
                     then rerank (ranked_requests tie (UPDATE old) old (approval_requests db)) now
                            (approval_requests db)
                     else approval_requests db),
               approval_actions := approval_actions db @
                 [\<lparr> request_id = rid, approver_id = u, action = decision_text act,
                    comment = Some cmt, action_created_at = now' \<rparr>]\<rparr>)"
proof -
  have old: "old \<in> set (approval_requests db)" "id_col old = rid"
    using f by (auto simp: find_Some_iff)
  have pol: "approvers_can_create_approval_actions db' (Some u)
               \<lparr> request_id = rid, approver_id = u, action = decision_text act,
                    comment = Some cmt, action_created_at = now' \<rparr>"
    if "profiles db' = profiles db" for db'
    using p that by (auto simp: approvers_can_create_approval_actions_def list_ex_iff)
  have fk: "rid \<in> set (map id_col (map (\<lambda>r. if id_col r = rid
                           then old\<lparr>status := decision_text act, updated_at := now\<rparr> else r)
                    (if status old = ''pending''
                     then rerank (ranked_requests tie (UPDATE old) old (approval_requests db)) now
                            (approval_requests db)
                     else approval_requests db)))"
    using old by (auto simp: rerank_def image_iff)
  show ?thesis
    using p(3) fk
    by (simp add: handleApprovalAction_def decide_update [OF f p] insert_approval_action_def pol
          del: set_map map_map)
qed


lemma find_replaced:
  assumes "find (\<lambda>r. id_col r = rid) tbl = Some old" "id_col new = rid"
  shows "find (\<lambda>r. id_col r = rid) (map (\<lambda>r. if id_col r = rid then new else r) tbl) = Some new"
  using assms by (induction tbl) (auto split: if_splits)

lemma find_rerank:
  "find (\<lambda>r. id_col r = rid) (rerank rk now tbl) =
     map_option (rerank_row rk now) (find (\<lambda>r. id_col r = rid) tbl)"
  by (induction tbl) (simp_all add: rerank_def)

lemma ranked_defined:
  assumes "r \<in> set tbl" "selected tg new r"
  shows "\<exists>p. map_of (ranked_requests tie tg new tbl) (id_col r) = Some p"
proof -
  let ?sel = "filter (selected tg new) tbl"
  have "id_col r \<in> set (map id_col (order_by_created_at tie ?sel))"
    using assms by simp
  moreover have "length (map id_col (order_by_created_at tie ?sel)) =
                 length (map int [1..<Suc (length ?sel)])"
    by (simp del: upt_Suc)
  ultimately show ?thesis
    unfolding ranked_requests_def Let_def by (simp only: map_of_zip_is_Some)
qed

lemma rerank_row_position:
  "map_of rk (id_col r) = Some p \<Longrightarrow> queue_position (rerank_row rk now r) = Some p"
  by (simp add: rerank_row_def position_is_distinct_def update_updated_at_column_def)

subsection \<open>The position of a decided request\<close>

text \<open>
  C2, as the specification states it, fails on the code: after the approver approves
  R2 of Scenario A, R2 is \<open>approved\<close> and still holds position 2, so a position is
  not defined exactly on the pending requests.
\<close>

theorem position_not_cleared_counterexample:
  "\<not> position_iff_pending (approval_requests
       (snd (handleApprovalAction scenario_A 10 11 by_key (Some 8) (Some approver_8) 2 approved ''ok''))) \<and>
   map status (approval_requests
       (snd (handleApprovalAction scenario_A 10 11 by_key (Some 8) (Some approver_8) 2 approved ''ok''))) =
     [''pending'', ''approved'', ''pending''] \<and>
   map queue_position (approval_requests
       (snd (handleApprovalAction scenario_A 10 11 by_key (Some 8) (Some approver_8) 2 approved ''ok''))) =
     [Some 1, Some 2, Some 2]"
  by (simp add: store_defs example_defs position_iff_pending_def split_beta)

text \<open>
  C2, amended. When an approver or admin decides a pending request, the request gets
  the decided status and the time of the statement as \<open>updated_at\<close> and keeps the
  position it had: \<open>update_queue_positions tie\<close> assigns \<open>NEW.queue_position\<close> only when
  \<open>NEW.status\<close> is \<open>pending\<close> and has no branch that clears it. After the statement
  every pending request has a defined position.
\<close>

theorem decide_keeps_position:
  assumes f: "find (\<lambda>r. id_col r = rid) (approval_requests db) = Some old"
      and pend: "status old = ''pending''"
      and p: "p \<in> set (profiles db)" "profile_id p = u" "role p = ''approver'' \<or> role p = ''admin''"
  shows "\<exists>db'. handleApprovalAction db now now' tie (Some u) (Some p) rid act cmt =
                 (decision_processed, db') \<and>
               find (\<lambda>r. id_col r = rid) (approval_requests db') =
                 Some (old\<lparr>status := decision_text act, updated_at := now\<rparr>) \<and>
               (\<forall>r \<in> set (approval_requests db').
                  status r = ''pending'' \<longrightarrow> queue_position r \<noteq> None)"
proof -
  let ?new = "old\<lparr>status := decision_text act, updated_at := now\<rparr>"
  let ?rk = "ranked_requests tie (UPDATE old) old (approval_requests db)"
  let ?tbl' = "map (\<lambda>r. if id_col r = rid then ?new else r)
                 (rerank ?rk now (approval_requests db))"
  have old: "id_col old = rid"
    using f by (auto simp: find_Some_iff)
  have "find (\<lambda>r. id_col r = rid) (rerank ?rk now (approval_requests db)) =
          Some (rerank_row ?rk now old)"
    by (simp add: find_rerank f)
  then have found: "find (\<lambda>r. id_col r = rid) ?tbl' = Some ?new"
    by (rule find_replaced) (simp add: old)
  have defined: "queue_position r' \<noteq> None" if "r' \<in> set ?tbl'" "status r' = ''pending''" for r'
  proof -
    from that(1) obtain r where r: "r \<in> set (approval_requests db)"
        and r': "r' = (if id_col r = rid then ?new else rerank_row ?rk now r)"
      by (auto simp: rerank_def)
    from r' that(2) have ne: "id_col r \<noteq> rid" and eq: "r' = rerank_row ?rk now r"
      by (auto split: if_splits)
    from eq that(2) ne have "selected (UPDATE old) old r"
      by (simp add: selected_def old)
    from ranked_defined [OF r this] obtain q where "map_of ?rk (id_col r) = Some q"
      by blast
    then show ?thesis
      by (simp add: eq rerank_row_position)
  qed
  show ?thesis
    using found defined
    by (simp add: decide_result [OF f p] pend)
qed

theorem decide_keeps_position_witness:
  "\<exists>db'. handleApprovalAction scenario_A 10 11 by_key (Some 8) (Some approver_8) 2 approved ''ok'' =
            (decision_processed, db') \<and>
          find (\<lambda>r. id_col r = 2) (approval_requests db') =
            Some ((request 2 ''R2'' ''approved'' (Some 2) 1)\<lparr>updated_at := 10\<rparr>)"
proof -
  have f: "find (\<lambda>r. id_col r = 2) (approval_requests scenario_A) =
             Some (request 2 ''R2'' ''pending'' (Some 2) 1)"
    by (simp add: example_defs)
  have pend: "status (request 2 ''R2'' ''pending'' (Some 2) 1) = ''pending''"
    by (simp add: request_def)
  have p: "approver_8 \<in> set (profiles scenario_A)" "profile_id approver_8 = 8"
      "role approver_8 = ''approver'' \<or> role approver_8 = ''admin''"
    by (simp_all add: example_defs)
  show ?thesis
    using decide_keeps_position [OF f pend p, of 10 11 by_key approved "''ok''"]
    by (auto simp: request_def decision_text_def)
qed

subsection \<open>A decision on a request already decided\<close>

text \<open>
  C3, as the specification states it, fails on the code: R2 of Scenario B is already
  approved; a second decision on it is processed, turns it to \<open>rejected\<close> and appends
  a second action for the same request.
\<close>

theorem second_decision_counterexample:
  "handleApprovalAction scenario_B 20 21 by_key (Some 8) (Some approver_8) 2 rejected ''no'' =
     (decision_processed,
      scenario_B\<lparr>approval_requests :=
          [request 1 ''R1'' ''pending'' (Some 1) 0,
           (request 2 ''R2'' ''rejected'' (Some 2) 1)\<lparr>updated_at := 20\<rparr>,
           (request 3 ''R3'' ''pending'' (Some 2) 2)\<lparr>updated_at := 10\<rparr>],
        approval_actions :=
          [\<lparr> request_id = 2, approver_id = 8, action = ''approved'', comment = Some ''ok'',
             action_created_at = 11 \<rparr>,
           \<lparr> request_id = 2, approver_id = 8, action = ''rejected'', comment = Some ''no'',
             action_created_at = 21 \<rparr>]\<rparr>)"
  by (simp add: store_defs example_defs scenario_B_def split_beta)

text \<open>
  C3, amended. A decision by an approver or admin on a request that is already
  \<open>approved\<close> or \<open>rejected\<close> is processed like any other: no conflict is raised,
  the status is overwritten with the new decision, \<open>updated_at\<close> is set, one more
  action row is appended, and nothing else in the store changes (no re-ranking runs,
  since neither the old nor the new status is \<open>pending\<close>).
\<close>

theorem decide_on_terminal_overwrites:
  assumes f: "find (\<lambda>r. id_col r = rid) (approval_requests db) = Some old"
      and terminal: "status old = ''approved'' \<or> status old = ''rejected''"
      and p: "p \<in> set (profiles db)" "profile_id p = u" "role p = ''approver'' \<or> role p = ''admin''"
  shows "handleApprovalAction db now now' tie (Some u) (Some p) rid act cmt =
           (decision_processed,
            db\<lparr>approval_requests :=
                  map (\<lambda>r. if id_col r = rid
                           then old\<lparr>status := decision_text act, updated_at := now\<rparr> else r)
                    (approval_requests db),
               approval_actions := approval_actions db @
                 [\<lparr> request_id = rid, approver_id = u, action = decision_text act,
                    comment = Some cmt, action_created_at = now' \<rparr>]\<rparr>)"
proof -
  from terminal have "status old \<noteq> ''pending''"
    by auto
  then show ?thesis
    by (simp add: decide_result [OF f p])
qed

theorem decide_on_terminal_overwrites_witness:
  "map status (approval_requests
     (snd (handleApprovalAction scenario_B 20 21 by_key (Some 8) (Some approver_8) 2 rejected ''no''))) =
     [''pending'', ''rejected'', ''pending''] \<and>
   map request_id (approval_actions
     (snd (handleApprovalAction scenario_B 20 21 by_key (Some 8) (Some approver_8) 2 rejected ''no''))) =
     [2, 2]"
proof -
  have f: "find (\<lambda>r. id_col r = 2) (approval_requests scenario_B) =
             Some ((request 2 ''R2'' ''approved'' (Some 2) 1)\<lparr>updated_at := 10\<rparr>)"
    by (simp add: example_defs scenario_B_def)
  have terminal: "status ((request 2 ''R2'' ''approved'' (Some 2) 1)\<lparr>updated_at := 10\<rparr>) = ''approved'' \<or>
              status ((request 2 ''R2'' ''approved'' (Some 2) 1)\<lparr>updated_at := 10\<rparr>) = ''rejected''"
    by (simp add: request_def)
  have p: "approver_8 \<in> set (profiles scenario_B)" "profile_id approver_8 = 8"
      "role approver_8 = ''approver'' \<or> role approver_8 = ''admin''"
    by (simp_all add: example_defs scenario_B_def)
  show ?thesis
    using decide_on_terminal_overwrites [OF f terminal p, of 20 21 by_key rejected "''no''"]
    by (simp add: request_def decision_text_def scenario_B_def)
qed

section \<open>Who may decide\<close>

text \<open>
  In the component the role check comes first: without a user, without a profile, or
  with a profile that is neither approver nor admin, nothing is sent to the store.
\<close>

lemma ui_guard:
  assumes "user = None \<or> prof = None \<or> (\<exists>p. prof = Some p \<and> role p \<noteq> ''approver'' \<and> role p \<noteq> ''admin'')"
  shows "handleApprovalAction db now now' tie user prof rid act cmt = (no_permission, db)"
  using assms by (auto simp: handleApprovalAction_def split: option.splits)

text \<open>
  At the store, an update by a caller who is not an approver or admin of a request
  that is not the caller's own is skipped by the policies: no row changes, and no
  error is raised.
\<close>

lemma policies_hide_foreign_rows:
  assumes "\<not> approvers_can_update_request_status db uid"
      and "\<forall>r \<in> set (approval_requests db). id_col r = rid \<longrightarrow> uid \<noteq> Some (user_id r)"
  shows "update_approval_requests db uid now tie rid u = Inr db"
  using assms
  by (auto simp: update_approval_requests_def users_can_update_their_own_requests_def
        split: option.splits dest: find_mem find_id)

text \<open>
  C4. No principal without the approver or admin role should be able to change a
  request's status, its own requests included, at the store and not only in the
  component. The store does not hold this: the policy
  \<open>Users can update their own requests\<close> admits every update of an own row, and
  the policies of a command are alternatives. Employee 7, who is not an approver,
  sends \<open>UPDATE approval_requests SET status = 'approved' WHERE id = 2\<close> for the
  request R2 they submitted; the row becomes \<open>approved\<close> and R3 moves up.
\<close>

theorem owner_changes_status_at_the_store:
  "role employee_7 = ''employee'' \<and>
   \<not> approvers_can_update_request_status scenario_A (Some 7) \<and>
   update_approval_requests scenario_A (Some 7) 9 by_key 2 (status_assignment ''approved'') =
     Inr (scenario_A\<lparr>approval_requests :=
            [request 1 ''R1'' ''pending'' (Some 1) 0,
             (request 2 ''R2'' ''approved'' (Some 2) 1)\<lparr>updated_at := 9\<rparr>,
             (request 3 ''R3'' ''pending'' (Some 2) 2)\<lparr>updated_at := 9\<rparr>]\<rparr>)"
  by (simp add: store_defs example_defs)

section \<open>Submitting\<close>

text \<open>
  C9, as the specification states it, fails on the code: an insert whose title is the
  empty string is accepted by the store (\<open>title TEXT NOT NULL\<close> refuses \<open>NULL\<close>
  only), and the row is created; \<open>handleSubmit\<close>, which does not look at the title,
  reports success for it.
\<close>

theorem empty_title_counterexample:
  "insert_approval_request scenario_A (Some 7) 5 by_key 4
        \<lparr> v_user_id = Some 7, v_title = Some [], v_content = None,
          v_department = Some ''Sales'', v_status = Some ''pending'',
          v_queue_position = None, v_created_at = None, v_updated_at = None \<rparr> =
     Inr (scenario_A\<lparr>approval_requests := approval_requests scenario_A @
            [request 4 [] ''pending'' (Some 4) 5]\<rparr>) \<and>
   handleSubmit scenario_A 5 by_key 4 (Some 7) (Some employee_7) [] [] =
     (Some submit_completed,
      scenario_A\<lparr>approval_requests := approval_requests scenario_A @
            [(request 4 [] ''pending'' (Some 4) 5)\<lparr>content := Some []\<rparr>]\<rparr>)"
  by (simp add: store_defs example_defs)

text \<open>
  C9, amended. A submit through the form with an empty title, or without a user or a
  profile (the source of the department), creates no row and shows no toast: the
  browser holds back an empty required field, and the handler returns at once when
  user or profile is missing. An insert whose \<open>user_id\<close>, \<open>title\<close> or \<open>department\<close>
  is \<open>NULL\<close> is refused by the store with an error, so no row is created.
\<close>

theorem submit_refusals:
  "(ttl = [] \<or> user = None \<or> prof = None \<longrightarrow>
      form_onSubmit db now tie new_id user prof ttl cnt = (None, db)) \<and>
   (v_user_id v = None \<or> v_title v = None \<or> v_department v = None \<longrightarrow>
      (\<exists>e. insert_approval_request db uid now' tie new_id' v = Inl e))"
  by (auto simp: form_onSubmit_def handleSubmit_def insert_approval_request_def
        users_can_create_their_own_requests_def split: option.splits)

theorem submit_refusals_witness:
  "form_onSubmit scenario_A 5 by_key 4 (Some 7) (Some employee_7) [] ''text'' = (None, scenario_A) \<and>
   (\<exists>e. insert_approval_request scenario_A (Some 7) 5 by_key 4
        \<lparr> v_user_id = Some 7, v_title = None, v_content = None,
          v_department = Some ''Sales'', v_status = Some ''pending'',
          v_queue_position = None, v_created_at = None, v_updated_at = None \<rparr> = Inl e)"
  using submit_refusals [of "[]" "Some 7" "Some employee_7" scenario_A 5 by_key 4 "''text''"
          "\<lparr> v_user_id = Some 7, v_title = None, v_content = None,
          v_department = Some ''Sales'', v_status = Some ''pending'',
          v_queue_position = None, v_created_at = None, v_updated_at = None \<rparr>" "Some 7" 5 4]
  by simp

section \<open>Deleting a request\<close>

lemma pending_delete:
  "pending (approval_requests (delete_approval_request db rid)) =
     filter (\<lambda>r. id_col r \<noteq> rid) (pending (approval_requests db))"
  by (auto simp: pending_def delete_approval_request_def intro: filter_cong)

lemma ordered_filter: "ordered tbl \<Longrightarrow> ordered (filter P tbl)"
  by (auto simp: ordered_def pending_def)

lemma positions_range:
  "set (map (\<lambda>i. Some (int i)) [1..<Suc n]) = (\<lambda>i. Some (int i)) ` {1..n}"
  by (simp only: set_map set_upt atLeastLessThanSuc_atLeastAtMost)

text \<open>
  C8, as the specification states it, fails on the code: after R2 of Scenario A is
  deleted, R1 and R3 still hold the positions 1 and 3.
\<close>

theorem delete_gap_counterexample:
  "map queue_position (approval_requests (delete_approval_request scenario_A 2)) =
     [Some 1, Some 3] \<and>
   \<not> dense (approval_requests (delete_approval_request scenario_A 2))"
  by (simp add: store_defs example_defs dense_def pending_def doubleton_eq_iff)

text \<open>
  C8, amended. Deleting a pending request runs no re-ranking (the trigger of the last
  migration is attached to inserts and to updates of \<open>status\<close> only): the remaining
  requests are kept as they are. Starting from a dense and ordered queue, their
  positions stay pairwise different and ordered by creation time, and they are the
  dense range again exactly when the deleted request held the last position.
\<close>

theorem delete_leaves_gap:
  assumes pk: "distinct (map id_col (approval_requests db))"
      and d: "d \<in> set (approval_requests db)" "id_col d = rid" "status d = ''pending''"
      and dense: "dense (approval_requests db)"
      and ord: "ordered (approval_requests db)"
  shows "approval_requests (delete_approval_request db rid) =
           filter (\<lambda>r. r \<noteq> d) (approval_requests db) \<and>
         ordered (approval_requests (delete_approval_request db rid)) \<and>
         distinct (map queue_position (pending (approval_requests (delete_approval_request db rid)))) \<and>
         (dense (approval_requests (delete_approval_request db rid)) \<longleftrightarrow>
            queue_position d = Some (int (length (pending (approval_requests db)))))"
proof -
  let ?tbl = "approval_requests db"
  let ?tbl' = "approval_requests (delete_approval_request db rid)"
  let ?P = "pending ?tbl"
  let ?P' = "pending ?tbl'"
  let ?n = "length ?P"
  let ?S = "\<lambda>i. Some (int i)"
  have same: "(id_col r \<noteq> rid) = (r \<noteq> d)" if "r \<in> set ?tbl" for r
    using unique_row [OF pk that d(1)] d(2) by auto
  have "filter (\<lambda>r. id_col r \<noteq> rid) ?tbl = filter (\<lambda>r. r \<noteq> d) ?tbl"
    by (rule filter_cong [OF refl]) (rule same)
  then have tbl': "?tbl' = filter (\<lambda>r. r \<noteq> d) ?tbl"
    by (simp add: delete_approval_request_def)
  have P': "?P' = filter (\<lambda>r. r \<noteq> d) ?P"
    unfolding pending_delete by (rule filter_cong [OF refl]) (simp add: pending_def same)
  have dP: "d \<in> set ?P"
    using d by (simp add: pending_def)
  have distP: "distinct ?P"
    using pk by (simp add: pending_def distinct_map)
  have distQ: "distinct (map queue_position ?P)" and setQ: "set (map queue_position ?P) = ?S ` {1..?n}"
    using dense by (simp_all only: dense_def positions_range)
  have inj: "inj_on queue_position (set ?P)"
    using distQ by (simp add: distinct_map)
  have ord': "ordered ?tbl'"
    unfolding tbl' using ord by (rule ordered_filter)
  have distQ': "distinct (map queue_position ?P')"
    unfolding P' using distQ by (rule distinct_map_filter)
  have len: "Suc (length ?P') = ?n"
  proof -
    have "length ?P' = length (removeAll d ?P)"
      by (simp add: P' removeAll_filter_not_eq eq_commute)
    also have "\<dots> = length (remove1 d ?P)"
      using distP by (simp add: distinct_remove1_removeAll)
    also have "\<dots> = ?n - 1"
      using dP by (simp add: length_remove1)
    finally show ?thesis
      using dP by (cases ?P) auto
  qed
  have setP': "set ?P' = set ?P - {d}"
    by (auto simp: P')
  have setQ': "set (map queue_position ?P') = ?S ` {1..?n} - {queue_position d}"
  proof -
    have "set (map queue_position ?P') = queue_position ` (set ?P - {d})"
      by (simp add: setP')
    also have "\<dots> = queue_position ` set ?P - {queue_position d}"
      using inj dP by (auto dest: inj_onD)
    finally show ?thesis
      using setQ by simp
  qed
  from dP setQ have "queue_position d \<in> ?S ` {1..?n}"
    by auto
  then obtain k where k: "queue_position d = Some (int k)" "1 \<le> k" "k \<le> ?n"
    by auto
  have injS: "inj ?S"
    by (simp add: inj_on_def)
  have "?S ` {1..?n} - {?S k} = ?S ` ({1..?n} - {k})"
    using injS by (auto dest: injD)
  then have setQ'': "set (map queue_position ?P') = ?S ` ({1..?n} - {k})"
    using setQ' k(1) by simp
  have "dense ?tbl' \<longleftrightarrow> ?S ` ({1..?n} - {k}) = ?S ` {1..length ?P'}"
    using distQ' by (simp only: dense_def positions_range setQ'' simp_thms)
  also have "\<dots> \<longleftrightarrow> {1..?n} - {k} = {1..length ?P'}"
    using injS by (simp add: inj_image_eq_iff)
  also have "\<dots> \<longleftrightarrow> k = ?n"
  proof
    assume eq: "{1..?n} - {k} = {1..length ?P'}"
    show "k = ?n"
    proof (rule ccontr)
      assume "k \<noteq> ?n"
      with k have "?n \<in> {1..?n} - {k}" by auto
      with eq have "?n \<in> {1..length ?P'}" by simp
      with len show False by simp
    qed
  next
    assume "k = ?n"
    with len show "{1..?n} - {k} = {1..length ?P'}" by auto
  qed
  finally have "dense ?tbl' \<longleftrightarrow> queue_position d = Some (int ?n)"
    using k(1) by simp
  with tbl' ord' distQ' show ?thesis by simp
qed

theorem delete_leaves_gap_witness:
  "approval_requests (delete_approval_request scenario_A 3) =
     [request 1 ''R1'' ''pending'' (Some 1) 0, request 2 ''R2'' ''pending'' (Some 2) 1] \<and>
   dense (approval_requests (delete_approval_request scenario_A 3))"
proof -
  let ?d = "request 3 ''R3'' ''pending'' (Some 3) 2"
  have pk: "distinct (map id_col (approval_requests scenario_A))"
    by (simp add: example_defs)
  have d: "?d \<in> set (approval_requests scenario_A)" "id_col ?d = 3" "status ?d = ''pending''"
    by (simp_all add: example_defs)
  have dense: "dense (approval_requests scenario_A)"
    by (simp add: example_defs dense_def pending_def)
  have ord: "ordered (approval_requests scenario_A)"
    by (simp add: example_defs ordered_def pending_def position_less_def)
  show ?thesis
    using delete_leaves_gap [OF pk d dense ord]
    by (simp add: store_defs example_defs pending_def)
qed

section \<open>What a re-ranking establishes\<close>

lemma distinct_ids_sorted_selection:
  assumes "distinct (map id_col tbl)"
  shows "distinct (map id_col (order_by_created_at tie (filter P tbl)))"
proof -
  have "distinct (map id_col (filter P tbl))"
    using assms by (rule distinct_map_filter)
  moreover have "mset (map id_col (order_by_created_at tie (filter P tbl))) =
                 mset (map id_col (filter P tbl))"
    by simp
  ultimately show ?thesis
    using mset_eq_imp_distinct_iff by blast
qed

lemma ranked_nth:
  assumes pk: "distinct (map id_col tbl)"
      and i: "i < length (filter (selected tg new) tbl)"
  shows "map_of (ranked_requests tie tg new tbl)
           (id_col (order_by_created_at tie (filter (selected tg new) tbl) ! i)) = Some (1 + int i)"
proof -
  let ?srt = "order_by_created_at tie (filter (selected tg new) tbl)"
  let ?ranks = "map int [1..<Suc (length (filter (selected tg new) tbl))]"
  have len: "length (map id_col ?srt) = length ?ranks"
    by (simp del: upt_Suc)
  have d: "distinct (map id_col ?srt)"
    using pk by (rule distinct_ids_sorted_selection)
  have "map_of (zip (map id_col ?srt) ?ranks) (map id_col ?srt ! i) = Some (?ranks ! i)"
    using len d i by (intro map_of_zip_nth) (simp_all del: upt_Suc)
  moreover have "?ranks ! i = 1 + int i"
    using i by (simp del: upt_Suc)
  ultimately show ?thesis
    using i by (simp add: ranked_requests_def Let_def del: upt_Suc)
qed

text \<open>The selected rows after the re-ranking, read in creation order, hold 1, 2, ..., n.\<close>

lemma reranked_positions:
  assumes pk: "distinct (map id_col tbl)"
  shows "map (\<lambda>r. queue_position (rerank_row (ranked_requests tie tg new tbl) now r))
           (order_by_created_at tie (filter (selected tg new) tbl)) =
         map (\<lambda>i. Some (int i)) [1..<Suc (length (filter (selected tg new) tbl))]"
proof (rule nth_equalityI)
  show "length (map (\<lambda>r. queue_position (rerank_row (ranked_requests tie tg new tbl) now r))
           (order_by_created_at tie (filter (selected tg new) tbl))) =
        length (map (\<lambda>i. Some (int i)) [1..<Suc (length (filter (selected tg new) tbl))])"
    by (simp del: upt_Suc)
next
  fix i
  assume "i < length (map (\<lambda>r. queue_position (rerank_row (ranked_requests tie tg new tbl) now r))
           (order_by_created_at tie (filter (selected tg new) tbl)))"
  then have i: "i < length (filter (selected tg new) tbl)"
    by simp
  from ranked_nth [OF pk i]
  have "queue_position (rerank_row (ranked_requests tie tg new tbl) now
          (order_by_created_at tie (filter (selected tg new) tbl) ! i)) = Some (1 + int i)"
    by (rule rerank_row_position)
  with i show "map (\<lambda>r. queue_position (rerank_row (ranked_requests tie tg new tbl) now r))
           (order_by_created_at tie (filter (selected tg new) tbl)) ! i =
        map (\<lambda>i. Some (int i)) [1..<Suc (length (filter (selected tg new) tbl))] ! i"
    by (simp del: upt_Suc)
qed

lemma reranked_mset:
  assumes pk: "distinct (map id_col tbl)"
  shows "mset (map queue_position
           (map (rerank_row (ranked_requests tie tg new tbl) now) (filter (selected tg new) tbl))) =
         mset (map (\<lambda>i. Some (int i)) [1..<Suc (length (filter (selected tg new) tbl))])"
proof -
  let ?sel = "filter (selected tg new) tbl"
  let ?f = "\<lambda>r. queue_position (rerank_row (ranked_requests tie tg new tbl) now r)"
  have "mset (map ?f ?sel) = image_mset ?f (mset (order_by_created_at tie ?sel))"
    by simp
  also have "\<dots> = mset (map ?f (order_by_created_at tie ?sel))"
    by (simp only: mset_map)
  also have "\<dots> = mset (map (\<lambda>i. Some (int i)) [1..<Suc (length ?sel)])"
    by (simp only: reranked_positions [OF pk])
  finally show ?thesis
    by (simp add: o_def)
qed

lemma sorted_nth_less:
  fixes ks :: "'a::linorder list"
  assumes "sorted ks" "i < length ks" "j < length ks" "ks ! i < ks ! j"
  shows "i < j"
proof (rule ccontr)
  assume "\<not> i < j"
  then have "j \<le> i" by simp
  with assms(1,2) have "ks ! j \<le> ks ! i"
    by (simp add: sorted_nth_mono)
  with assms(4) show False by simp
qed

lemma reranked_ordered:
  assumes pk: "distinct (map id_col tbl)"
      and a: "a \<in> set (filter (selected tg new) tbl)"
      and b: "b \<in> set (filter (selected tg new) tbl)"
      and lt: "created_at a < created_at b"
  shows "position_less (rerank_row (ranked_requests tie tg new tbl) now a)
                       (rerank_row (ranked_requests tie tg new tbl) now b)"
proof -
  let ?sel = "filter (selected tg new) tbl"
  let ?srt = "order_by_created_at tie ?sel"
  have "a \<in> set ?srt"
    using a by (simp only: set_order)
  then have "\<exists>i<length ?srt. ?srt ! i = a"
    by (simp only: in_set_conv_nth)
  then obtain i where i: "i < length ?srt" "?srt ! i = a"
    by (elim exE conjE)
  have "b \<in> set ?srt"
    using b by (simp only: set_order)
  then have "\<exists>j<length ?srt. ?srt ! j = b"
    by (simp only: in_set_conv_nth)
  then obtain j where j: "j < length ?srt" "?srt ! j = b"
    by (elim exE conjE)
  have srt: "sorted (map created_at ?srt)"
    by (rule sorted_order)
  have li: "i < length (map created_at ?srt)" and lj: "j < length (map created_at ?srt)"
    using i(1) j(1) by simp_all
  have "map created_at ?srt ! i = created_at a" "map created_at ?srt ! j = created_at b"
    using i j by (simp_all only: nth_map)
  with lt have "map created_at ?srt ! i < map created_at ?srt ! j"
    by (simp only:)
  with srt li lj have ij: "i < j"
    by (rule sorted_nth_less)
  have i': "i < length ?sel" and j': "j < length ?sel"
    using i(1) j(1) by (simp_all only: length_order)
  have "map_of (ranked_requests tie tg new tbl) (id_col a) = Some (1 + int i)"
    using ranked_nth [OF pk i', of tie] by (simp only: i(2))
  then have pa: "queue_position (rerank_row (ranked_requests tie tg new tbl) now a) = Some (1 + int i)"
    by (rule rerank_row_position)
  have "map_of (ranked_requests tie tg new tbl) (id_col b) = Some (1 + int j)"
    using ranked_nth [OF pk j', of tie] by (simp only: j(2))
  then have pb: "queue_position (rerank_row (ranked_requests tie tg new tbl) now b) = Some (1 + int j)"
    by (rule rerank_row_position)
  show ?thesis
    using ij by (simp add: position_less_def pa pb)
qed

lemma dense_from_mset:
  assumes "mset (map queue_position (pending tbl)) =
           mset (map (\<lambda>i. Some (int i)) [1..<Suc (length (pending tbl))])"
  shows "dense tbl"
proof -
  have "distinct (map (\<lambda>i. Some (int i)) [1..<Suc (length (pending tbl))])"
    by (simp add: distinct_map inj_on_def del: upt_Suc)
  with assms have "distinct (map queue_position (pending tbl))"
    using mset_eq_imp_distinct_iff by blast
  moreover from assms have "set (map queue_position (pending tbl)) =
      set (map (\<lambda>i. Some (int i)) [1..<Suc (length (pending tbl))])"
    by (rule mset_eq_setD)
  ultimately show ?thesis
    by (simp only: dense_def)
qed

section \<open>Density of the queue\<close>

lemma queue_of_reranked:
  assumes pk: "distinct (map id_col tbl)"
      and P: "pending tbl' =
              map (rerank_row (ranked_requests tie tg new tbl) now) (filter (selected tg new) tbl)"
  shows "dense tbl' \<and> ordered tbl'"
proof
  have "length (pending tbl') = length (filter (selected tg new) tbl)"
    by (simp add: P)
  then show "dense tbl'"
    using reranked_mset [OF pk, of tie tg new now] by (intro dense_from_mset) (simp only: P)
next
  show "ordered tbl'"
    unfolding ordered_def
  proof (intro ballI impI)
    fix a' b'
    assume "a' \<in> set (pending tbl')" "b' \<in> set (pending tbl')"
       and lt: "created_at a' < created_at b'"
    then obtain a b where a: "a \<in> set (filter (selected tg new) tbl)"
          "a' = rerank_row (ranked_requests tie tg new tbl) now a"
        and b: "b \<in> set (filter (selected tg new) tbl)"
          "b' = rerank_row (ranked_requests tie tg new tbl) now b"
      unfolding P by auto
    from lt have "created_at a < created_at b"
      by (simp add: a(2) b(2))
    with pk a(1) b(1) show "position_less a' b'"
      unfolding a(2) b(2) by (rule reranked_ordered)
  qed
qed

text \<open>
  A decision on a pending request leaves the queue dense and ordered, whatever the
  positions were before.
\<close>

lemma decide_restores_queue:
  assumes pk: "distinct (map id_col (approval_requests db))"
      and f: "find (\<lambda>r. id_col r = rid) (approval_requests db) = Some old"
      and pend: "status old = ''pending''"
      and p: "p \<in> set (profiles db)" "profile_id p = u" "role p = ''approver'' \<or> role p = ''admin''"
  shows "dense (approval_requests (snd (handleApprovalAction db now now' tie (Some u) (Some p) rid act cmt))) \<and>
         ordered (approval_requests (snd (handleApprovalAction db now now' tie (Some u) (Some p) rid act cmt)))"
proof -
  let ?tbl = "approval_requests db"
  let ?rk = "ranked_requests tie (UPDATE old) old ?tbl"
  let ?new = "old\<lparr>status := decision_text act, updated_at := now\<rparr>"
  let ?g = "\<lambda>r. if id_col r = rid then ?new else r"
  let ?tbl' = "map ?g (rerank ?rk now ?tbl)"
  have old: "id_col old = rid"
    using f by (rule find_id)
  have keep: "(status (?g (rerank_row ?rk now r)) = ''pending'') = selected (UPDATE old) old r" for r
    by (simp add: selected_def old)
  have "pending ?tbl' = filter (\<lambda>r. status r = ''pending'') (map (\<lambda>r. ?g (rerank_row ?rk now r)) ?tbl)"
    by (simp add: pending_def rerank_def o_def)
  also have "\<dots> = map (\<lambda>r. ?g (rerank_row ?rk now r)) (filter (selected (UPDATE old) old) ?tbl)"
    by (simp only: filter_map o_def keep)
  also have "\<dots> = map (rerank_row ?rk now) (filter (selected (UPDATE old) old) ?tbl)"
    by (rule map_cong [OF refl]) (simp add: selected_def old)
  finally have "dense ?tbl' \<and> ordered ?tbl'"
    by (rule queue_of_reranked [OF pk])
  then show ?thesis
    by (simp add: decide_result [OF f p] pend)
qed

text \<open>
  An insert of a pending request created strictly later than every pending request
  leaves the queue dense and ordered.
\<close>

lemma latest_insert_keeps_queue:
  assumes ins: "insert_approval_request db uid now tie new_id v = Inr db'"
      and st: "v_status v = None \<or> v_status v = Some ''pending''"
      and pk: "distinct (map id_col (approval_requests db))"
      and latest: "\<forall>r \<in> set (pending (approval_requests db)).
                     created_at r < created_at (new_row now new_id v)"
  shows "dense (approval_requests db') \<and> ordered (approval_requests db')"
proof -
  let ?tbl = "approval_requests db"
  let ?new = "new_row now new_id v"
  let ?rk = "ranked_requests tie INSERT ?new ?tbl"
  let ?n = "length (pending ?tbl)"
  let ?new' = "?new\<lparr>queue_position := Some (1 + int ?n)\<rparr>"
  let ?tbl1 = "rerank ?rk now ?tbl"
  let ?S = "\<lambda>i. Some (int i)"
  have pend: "status ?new = ''pending''"
    using st by (auto simp: new_row_def)
  have sel: "filter (selected INSERT ?new) ?tbl = pending ?tbl"
    by (rule selected_all_pending) simp
  have "filter (\<lambda>r. status r = ''pending'' \<and> created_at r < created_at ?new) ?tbl = pending ?tbl"
    unfolding pending_def using latest by (intro filter_cong) (auto simp: pending_def)
  then have cnt: "earlier_pending ?new ?tbl = ?n"
    by (simp add: earlier_pending_def)
  have db': "approval_requests db' = ?tbl1 @ [?new']"
    using ins pend
    by (auto simp: insert_approval_request_def update_queue_positions_def recompute_guard_def
          Let_def cnt split: if_splits)
  have P1: "pending ?tbl1 = map (rerank_row ?rk now) (filter (selected INSERT ?new) ?tbl)"
    by (simp add: sel pending_def rerank_def filter_map o_def)
  have q1: "dense ?tbl1" "ordered ?tbl1"
    using queue_of_reranked [OF pk P1] by simp_all
  have len1: "length (pending ?tbl1) = ?n"
    by (simp add: P1 sel)
  have P': "pending (approval_requests db') = pending ?tbl1 @ [?new']"
    using pend by (simp add: db' pending_def)
  have m1: "mset (map queue_position (pending ?tbl1)) = mset (map ?S [1..<Suc ?n])"
    using reranked_mset [OF pk, of tie INSERT ?new now] by (simp only: P1 sel)
  have up: "[1..<Suc (Suc ?n)] = [1..<Suc ?n] @ [Suc ?n]"
    by (rule upt_Suc_append) simp
  have "mset (map queue_position (pending ?tbl1 @ [?new'])) =
        mset (map ?S [1..<Suc ?n] @ [?S (Suc ?n)])"
    using m1 by (simp del: upt_Suc)
  then have "mset (map queue_position (pending (approval_requests db'))) =
        mset (map ?S [1..<Suc (Suc ?n)])"
    by (simp only: P' up map_append list.map)
  moreover have "length (pending (approval_requests db')) = Suc ?n"
    by (simp add: P' len1)
  ultimately have "mset (map queue_position (pending (approval_requests db'))) =
        mset (map ?S [1..<Suc (length (pending (approval_requests db')))])"
    by (simp only:)
  then have dense: "dense (approval_requests db')"
    by (rule dense_from_mset)
  have bound: "\<exists>k. queue_position a = Some (int k) \<and> k \<le> ?n" if "a \<in> set (pending ?tbl1)" for a
  proof -
    from that have "queue_position a \<in> set_mset (mset (map queue_position (pending ?tbl1)))"
      by simp
    then have "queue_position a \<in> set (map ?S [1..<Suc ?n])"
      by (simp only: m1 set_mset_mset)
    then show ?thesis
      by auto
  qed
  have "ordered (approval_requests db')"
    unfolding ordered_def
  proof (intro ballI impI)
    fix a b
    assume a: "a \<in> set (pending (approval_requests db'))"
       and b: "b \<in> set (pending (approval_requests db'))"
       and lt: "created_at a < created_at b"
    from a b consider "a \<in> set (pending ?tbl1)" "b \<in> set (pending ?tbl1)"
      | "a \<in> set (pending ?tbl1)" "b = ?new'"
      | "a = ?new'" "b \<in> set (pending ?tbl1)"
      | "a = ?new'" "b = ?new'"
      by (auto simp: P')
    then show "position_less a b"
    proof cases
      case 1
      with q1(2) lt show ?thesis
        by (simp add: ordered_def)
    next
      case 2
      from bound [OF 2(1)] obtain k where "queue_position a = Some (int k)" "k \<le> ?n"
        by blast
      with 2(2) show ?thesis
        by (simp add: position_less_def)
    next
      case 3
      from 3(2) obtain r where "r \<in> set (pending ?tbl)" "b = rerank_row ?rk now r"
        by (auto simp: P1 sel)
      with latest have "created_at b < created_at ?new"
        by simp
      with lt 3(1) show ?thesis
        by simp
    next
      case 4
      with lt show ?thesis by simp
    qed
  qed
  with dense show ?thesis ..
qed

text \<open>
  C1. After every insert of a pending request the positions of the pending requests
  should be the dense range \<open>1..n\<close> in creation order. The code misses this when the
  new row is not strictly the latest: the rows already pending are numbered
  \<open>1..n\<close> among themselves and the new row gets 1 + the number of strictly earlier
  ones, so it shares a position with an old row. With Scenario A in the store, a
  submit in a transaction whose \<open>now()\<close> equals the \<open>created_at\<close> of R3 puts both
  R3 and the new request at position 3, and an insert that supplies an earlier
  \<open>created_at\<close> puts both R1 and the new request at position 1.
\<close>

theorem insert_not_latest_duplicates_position:
  "map created_at (approval_requests
     (snd (handleSubmit scenario_A 2 by_key 4 (Some 7) (Some employee_7) ''R4'' ''text''))) =
     [0, 1, 2, 2] \<and>
   map queue_position (approval_requests
     (snd (handleSubmit scenario_A 2 by_key 4 (Some 7) (Some employee_7) ''R4'' ''text''))) =
     [Some 1, Some 2, Some 3, Some 3] \<and>
   \<not> dense (approval_requests
     (snd (handleSubmit scenario_A 2 by_key 4 (Some 7) (Some employee_7) ''R4'' ''text''))) \<and>
   map queue_position (approval_requests (projr
     (insert_approval_request scenario_A (Some 7) 5 by_key 4
        \<lparr> v_user_id = Some 7, v_title = Some ''R4'', v_content = None,
          v_department = Some ''Sales'', v_status = None,
          v_queue_position = None, v_created_at = Some (- 1), v_updated_at = None \<rparr>))) =
     [Some 1, Some 2, Some 3, Some 1]"
  by (simp add: store_defs example_defs dense_def pending_def split_beta)

end
